theory Spec2Isabelle
  imports Complex_Main "HOL-Library.Multiset"
begin

section \<open>Data model of the dashboard client\<close>

text \<open>
  The dashboard is a set of page components over a typed HTTP client
  (\<^verbatim>\<open>frontend/src/services/api.ts\<close>). JavaScript numbers that the pages
  compare and subtract (scores, prices) are modelled as rationals: they arrive as
  JSON, hence are finite, and on finite values the order and the sign of a
  difference agree with the exact ones. Counters and page numbers are integers.

  \<^verbatim>\<open>Item\<close> is cut down to the fields the pages below branch on; \<open>None\<close>
  stands for \<^verbatim>\<open>null\<close>.
\<close>

record item =
  item_id :: string
  original_price :: rat
  ai_score :: "rat option"
  status :: string

text \<open>\<^verbatim>\<open>ItemListResponse\<close>: \<^verbatim>\<open>{items, total, page, per_page, pages}\<close>.\<close>

record 'a list_response =
  items :: "'a list"
  total :: int
  page :: int
  per_page :: int
  pages :: int

section \<open>Opportunities page: which items become cards, and in which order\<close>

text \<open>
  \<^verbatim>\<open>opportunities?.items.filter(item => item.ai_score && item.ai_score >= 60) || []\<close>.
  A number is truthy when it is not zero; \<^verbatim>\<open>null\<close> is falsy.
\<close>

definition score_filter :: "item \<Rightarrow> bool" where
  "score_filter it = (case ai_score it of None \<Rightarrow> False | Some s \<Rightarrow> s \<noteq> 0 \<and> 60 \<le> s)"

definition analyzedItems :: "item list_response option \<Rightarrow> item list" where
  "analyzedItems opportunities =
     (case opportunities of None \<Rightarrow> [] | Some r \<Rightarrow> filter score_filter (items r))"

text \<open>\<^verbatim>\<open>item.ai_score || 0\<close>.\<close>

definition score_or_zero :: "item \<Rightarrow> rat" where
  "score_or_zero it = (case ai_score it of None \<Rightarrow> 0 | Some s \<Rightarrow> if s \<noteq> 0 then s else 0)"

text \<open>The comparator \<^verbatim>\<open>(a, b) => (b.ai_score || 0) - (a.ai_score || 0)\<close>.\<close>

definition compare_score :: "item \<Rightarrow> item \<Rightarrow> rat" where
  "compare_score a b = score_or_zero b - score_or_zero a"

text \<open>
  \<^verbatim>\<open>Array.prototype.sort\<close> with a comparator is a stable sort: \<open>a\<close> stays before
  \<open>b\<close> unless the comparator is positive on \<open>(a, b)\<close>. Insertion from the right
  end, placing an element before the first one it does not exceed, is such a sort.
\<close>

fun insert_by :: "('a \<Rightarrow> 'a \<Rightarrow> rat) \<Rightarrow> 'a \<Rightarrow> 'a list \<Rightarrow> 'a list" where
  "insert_by cmp x [] = [x]"
| "insert_by cmp x (y # ys) =
     (if cmp x y \<le> 0 then x # y # ys else y # insert_by cmp x ys)"

fun js_sort :: "('a \<Rightarrow> 'a \<Rightarrow> rat) \<Rightarrow> 'a list \<Rightarrow> 'a list" where
  "js_sort cmp [] = []"
| "js_sort cmp (x # xs) = insert_by cmp x (js_sort cmp xs)"

text \<open>
  The grid of the page: a spinner while loading, the empty state when no item
  passes the filter, otherwise one \<^verbatim>\<open>OpportunityCard\<close> per sorted item.
  The result is the list of items that get a card, in rendering order.
\<close>

definition opportunity_cards :: "bool \<Rightarrow> item list_response option \<Rightarrow> item list" where
  "opportunity_cards isLoading opportunities =
     (if isLoading then []
      else if length (analyzedItems opportunities) = 0 then []
      else js_sort compare_score (analyzedItems opportunities))"

section \<open>Items page: pagination state\<close>

text \<open>
  \<^verbatim>\<open>const [page, setPage] = useState(1)\<close> and the query keyed by
  \<^verbatim>\<open>['pending-items', page]\<close>: every page number has its own cached
  response, and \<^verbatim>\<open>data\<close> is the one of the current page.
\<close>

record items_page =
  cur_page :: int
  responses :: "int \<Rightarrow> item list_response option"

definition items_page_init :: items_page where
  "items_page_init = \<lparr>cur_page = 1, responses = (\<lambda>_. None)\<rparr>"

definition page_data :: "items_page \<Rightarrow> item list_response option" where
  "page_data st = responses st (cur_page st)"

text \<open>\<^verbatim>\<open>{data && data.pages > 1 && (...)}\<close>: the two buttons exist only then.\<close>

definition pagination_shown :: "items_page \<Rightarrow> bool" where
  "pagination_shown st = (case page_data st of None \<Rightarrow> False | Some d \<Rightarrow> pages d > 1)"

text \<open>
  \<^verbatim>\<open>onClick={() => setPage((p) => Math.max(1, p - 1))}\<close>,
  \<^verbatim>\<open>disabled={page === 1}\<close>; a disabled or absent button does nothing.
\<close>

definition click_prev :: "items_page \<Rightarrow> items_page" where
  "click_prev st =
     (if pagination_shown st \<and> cur_page st \<noteq> 1
      then st\<lparr>cur_page := max 1 (cur_page st - 1)\<rparr> else st)"

text \<open>
  \<^verbatim>\<open>onClick={() => setPage((p) => Math.min(data.pages, p + 1))}\<close>,
  \<^verbatim>\<open>disabled={page === data.pages}\<close>.
\<close>

definition click_next :: "items_page \<Rightarrow> items_page" where
  "click_next st =
     (case page_data st of
        None \<Rightarrow> st
      | Some d \<Rightarrow>
          if pages d > 1 \<and> cur_page st \<noteq> pages d
          then st\<lparr>cur_page := min (pages d) (cur_page st + 1)\<rparr> else st)"

text \<open>
  What can happen to the page: a click on either button, or the response of
  \<^verbatim>\<open>itemsApi.getPending({ page: p, per_page: 12 })\<close> being stored under its key.
\<close>

datatype page_event = ClickPrev | ClickNext | Fetched int "item list_response"

fun page_step :: "items_page \<Rightarrow> page_event \<Rightarrow> items_page" where
  "page_step st ClickPrev = click_prev st"
| "page_step st ClickNext = click_next st"
| "page_step st (Fetched p r) = st\<lparr>responses := (responses st)(p := Some r)\<rparr>"

definition page_run :: "page_event list \<Rightarrow> items_page" where
  "page_run evs = foldl page_step items_page_init evs"

text \<open>The responses a run delivers.\<close>

fun fetched_pages :: "page_event \<Rightarrow> int list" where
  "fetched_pages (Fetched p r) = [pages r]"
| "fetched_pages _ = []"

section \<open>Remote Resource Client\<close>

text \<open>
  JavaScript values as the client passes them around: query parameters, request
  bodies and the parts of a query key.
\<close>

datatype jsval =
    JUndefined
  | JNull
  | JBool bool
  | JNum rat
  | JStr string
  | JArr "jsval list"
  | JObj "(string \<times> jsval) list"

fun truthy :: "jsval \<Rightarrow> bool" where
  "truthy JUndefined = False"
| "truthy JNull = False"
| "truthy (JBool b) = b"
| "truthy (JNum n) = (n \<noteq> 0)"
| "truthy (JStr s) = (s \<noteq> [])"
| "truthy (JArr xs) = True"
| "truthy (JObj kvs) = True"

text \<open>\<^verbatim>\<open>a || b\<close>.\<close>

definition js_or :: "jsval \<Rightarrow> jsval \<Rightarrow> jsval" where
  "js_or a b = (if truthy a then a else b)"

text \<open>Decimal rendering of a non-negative integer inside a template string.\<close>

fun string_of_nat :: "nat \<Rightarrow> string" where
  "string_of_nat n =
     (if n < 10 then [char_of (48 + n)]
      else string_of_nat (n div 10) @ [char_of (48 + n mod 10)])"

declare string_of_nat.simps [simp del]

datatype http_method = GET | POST | PUT | DELETE

text \<open>
  One call on the \<^verbatim>\<open>axios\<close> instance: the method, the URL under the base
  \<^verbatim>\<open>/api/v1\<close>, \<^verbatim>\<open>config.params\<close> and the data argument
  (\<open>JUndefined\<close> where the call passes none).
\<close>

record request =
  req_method :: http_method
  req_url :: string
  req_params :: jsval
  req_data :: jsval

definition api_get :: "string \<Rightarrow> jsval \<Rightarrow> request" where
  "api_get url params = \<lparr>req_method = GET, req_url = url, req_params = params, req_data = JUndefined\<rparr>"

definition api_post :: "string \<Rightarrow> jsval \<Rightarrow> jsval \<Rightarrow> request" where
  "api_post url dat params = \<lparr>req_method = POST, req_url = url, req_params = params, req_data = dat\<rparr>"

definition api_put :: "string \<Rightarrow> jsval \<Rightarrow> request" where
  "api_put url dat = \<lparr>req_method = PUT, req_url = url, req_params = JUndefined, req_data = dat\<rparr>"

definition api_delete :: "string \<Rightarrow> request" where
  "api_delete url = \<lparr>req_method = DELETE, req_url = url, req_params = JUndefined, req_data = JUndefined\<rparr>"

text \<open>
  The operations of \<^verbatim>\<open>api.ts\<close>, one constructor each, grouped as the
  exported objects are. Optional arguments are \<open>jsval\<close>s (\<open>JUndefined\<close> when
  left out); arguments with a default value are options.
\<close>

datatype items_op =
    ItemsGetAll jsval
  | ItemsGetPending jsval
  | ItemsGetById string
  | ItemsApprove string jsval
  | ItemsReject string jsval
  | ItemsDelete string

datatype listings_op =
    ListingsGetAll jsval
  | ListingsGetActive jsval
  | ListingsGetById string
  | ListingsPublish string
  | ListingsEnd string

datatype orders_op =
    OrdersGetAll jsval
  | OrdersGetPending jsval
  | OrdersGetById string
  | OrdersMarkPurchased string jsval
  | OrdersMarkShipped string jsval
  | OrdersComplete string

datatype analytics_op =
    AnalyticsGetDashboard
  | AnalyticsGetDailyProfit "nat option"
  | AnalyticsGetSources
  | AnalyticsGetCategories

datatype scraper_op =
    ScraperStartScraping "string list" "nat option"
  | ScraperGetStatus

datatype ai_op =
    AiAnalyzeItem string
  | AiAnalyzePending jsval
  | AiGetOpportunities jsval

datatype scheduler_op =
    SchedulerGetStatus
  | SchedulerStart
  | SchedulerStop
  | SchedulerUpdateSettings jsval
  | SchedulerTestTelegram
  | SchedulerGetCategories
  | SchedulerScrapeCategory string

datatype api_op =
    ItemsApi items_op
  | ListingsApi listings_op
  | OrdersApi orders_op
  | AnalyticsApi analytics_op
  | ScraperApi scraper_op
  | AiApi ai_op
  | SchedulerApi scheduler_op

fun itemsApi :: "items_op \<Rightarrow> request" where
  "itemsApi (ItemsGetAll params) = api_get ''/items'' params"
| "itemsApi (ItemsGetPending params) = api_get ''/items/pending'' params"
| "itemsApi (ItemsGetById i) = api_get (''/items/'' @ i) JUndefined"
| "itemsApi (ItemsApprove i dat) =
     api_post (''/items/'' @ i @ ''/approve'') (js_or dat (JObj [])) JUndefined"
| "itemsApi (ItemsReject i reason) =
     api_post (''/items/'' @ i @ ''/reject'') JNull (JObj [(''reason'', reason)])"
| "itemsApi (ItemsDelete i) = api_delete (''/items/'' @ i)"

fun listingsApi :: "listings_op \<Rightarrow> request" where
  "listingsApi (ListingsGetAll params) = api_get ''/listings'' params"
| "listingsApi (ListingsGetActive params) = api_get ''/listings/active'' params"
| "listingsApi (ListingsGetById i) = api_get (''/listings/'' @ i) JUndefined"
| "listingsApi (ListingsPublish i) = api_post (''/listings/'' @ i @ ''/publish'') JUndefined JUndefined"
| "listingsApi (ListingsEnd i) = api_post (''/listings/'' @ i @ ''/end'') JUndefined JUndefined"

fun ordersApi :: "orders_op \<Rightarrow> request" where
  "ordersApi (OrdersGetAll params) = api_get ''/orders'' params"
| "ordersApi (OrdersGetPending params) = api_get ''/orders/pending'' params"
| "ordersApi (OrdersGetById i) = api_get (''/orders/'' @ i) JUndefined"
| "ordersApi (OrdersMarkPurchased i dat) =
     api_post (''/orders/'' @ i @ ''/mark-purchased'') JNull dat"
| "ordersApi (OrdersMarkShipped i dat) =
     api_post (''/orders/'' @ i @ ''/mark-shipped'') JNull dat"
| "ordersApi (OrdersComplete i) = api_post (''/orders/'' @ i @ ''/complete'') JUndefined JUndefined"

fun analyticsApi :: "analytics_op \<Rightarrow> request" where
  "analyticsApi AnalyticsGetDashboard = api_get ''/analytics/dashboard'' JUndefined"
| "analyticsApi (AnalyticsGetDailyProfit days) =
     api_get (''/analytics/profit/daily?days='' @ string_of_nat (case days of None \<Rightarrow> 30 | Some d \<Rightarrow> d))
       JUndefined"
| "analyticsApi AnalyticsGetSources = api_get ''/analytics/sources'' JUndefined"
| "analyticsApi AnalyticsGetCategories = api_get ''/analytics/categories'' JUndefined"

fun scraperApi :: "scraper_op \<Rightarrow> request" where
  "scraperApi (ScraperStartScraping queries maxPages) =
     api_post ''/scraper/start''
       (JObj [(''queries'', JArr (map JStr queries)),
              (''max_pages'', JNum (of_nat (case maxPages of None \<Rightarrow> 3 | Some m \<Rightarrow> m))),
              (''platform'', JStr ''subito'')])
       JUndefined"
| "scraperApi ScraperGetStatus = api_get ''/scraper/status'' JUndefined"

fun aiApi :: "ai_op \<Rightarrow> request" where
  "aiApi (AiAnalyzeItem itemId) = api_post (''/items/'' @ itemId @ ''/analyze'') JUndefined JUndefined"
| "aiApi (AiAnalyzePending params) = api_post ''/items/analyze-pending'' JNull params"
| "aiApi (AiGetOpportunities minScore) =
     api_get ''/items/''
       (JObj [(''min_score'', js_or minScore (JNum 60)), (''status'', JStr ''pending'')])"

fun schedulerApi :: "scheduler_op \<Rightarrow> request" where
  "schedulerApi SchedulerGetStatus = api_get ''/scheduler/status'' JUndefined"
| "schedulerApi SchedulerStart = api_post ''/scheduler/start'' JUndefined JUndefined"
| "schedulerApi SchedulerStop = api_post ''/scheduler/stop'' JUndefined JUndefined"
| "schedulerApi (SchedulerUpdateSettings settings) = api_put ''/scheduler/settings'' settings"
| "schedulerApi SchedulerTestTelegram = api_post ''/scheduler/test-telegram'' JUndefined JUndefined"
| "schedulerApi SchedulerGetCategories = api_get ''/scheduler/categories'' JUndefined"
| "schedulerApi (SchedulerScrapeCategory categoryId) =
     api_post (''/scheduler/scrape-category/'' @ categoryId) JUndefined JUndefined"

fun request_of :: "api_op \<Rightarrow> request" where
  "request_of (ItemsApi op) = itemsApi op"
| "request_of (ListingsApi op) = listingsApi op"
| "request_of (OrdersApi op) = ordersApi op"
| "request_of (AnalyticsApi op) = analyticsApi op"
| "request_of (ScraperApi op) = scraperApi op"
| "request_of (AiApi op) = aiApi op"
| "request_of (SchedulerApi op) = schedulerApi op"

text \<open>
  What one HTTP exchange comes to: no response at all (server unreachable,
  timeout), or a response with its status code and body.
\<close>

datatype 'b http_outcome = NoResponse | Response nat 'b

text \<open>
  The error the HTTP library rejects with: \<^verbatim>\<open>err.response\<close> is absent when
  nothing came back, else it carries the status and the body (the Settings page
  reads \<^verbatim>\<open>err.response?.data?.detail\<close>).
\<close>

datatype 'b axios_error = AxiosError "(nat \<times> 'b) option"

text \<open>
  The instance of \<^verbatim>\<open>api.ts\<close> sets a base URL and a content type only: no
  interceptor, no \<^verbatim>\<open>validateStatus\<close>. The default of the HTTP library
  applies: a response resolves when its status is in 200..299, and every other
  response rejects, as does an exchange without a response.
\<close>

definition validateStatus :: "nat \<Rightarrow> bool" where
  "validateStatus st = (200 \<le> st \<and> st < 300)"

fun settle :: "'b http_outcome \<Rightarrow> 'b axios_error + 'b" where
  "settle NoResponse = Inl (AxiosError None)"
| "settle (Response st b) =
     (if validateStatus st then Inr b else Inl (AxiosError (Some (st, b))))"

text \<open>
  The far end: from its state and a request, an outcome and a new state. The wire
  pairs the server's state with the log of the requests sent so far.
\<close>

type_synonym ('sv, 'b) server = "'sv \<Rightarrow> request \<Rightarrow> 'b http_outcome \<times> 'sv"

type_synonym 'sv wire = "'sv \<times> request list"

text \<open>
  Every operation of \<^verbatim>\<open>api.ts\<close> but one is
  \<^verbatim>\<open>const response = await api.<method>(...); return response.data\<close>.
  \<^verbatim>\<open>itemsApi.delete\<close> awaits the call and has no return statement: it
  resolves with \<^verbatim>\<open>undefined\<close>, which is \<open>None\<close> here.
\<close>

fun returns_data :: "api_op \<Rightarrow> bool" where
  "returns_data (ItemsApi (ItemsDelete i)) = False"
| "returns_data op = True"

definition response_data :: "api_op \<Rightarrow> 'b \<Rightarrow> 'b option" where
  "response_data op b = (if returns_data op then Some b else None)"

text \<open>
  An operation sends one request and passes the rejection of the library on as it
  is: there is no \<^verbatim>\<open>catch\<close> and no second call in \<^verbatim>\<open>api.ts\<close>.
\<close>

definition api_call :: "('sv, 'b) server \<Rightarrow> api_op \<Rightarrow> 'sv wire \<Rightarrow> ('b axios_error + 'b option) \<times> 'sv wire" where
  "api_call srv op w =
     (case srv (fst w) (request_of op) of
        (out, sv') \<Rightarrow>
          (case settle out of
             Inl e \<Rightarrow> Inl e
           | Inr b \<Rightarrow> Inr (response_data op b),
           (sv', snd w @ [request_of op])))"

text \<open>
  The taxonomy of the specification, as a second definition to compare the client
  with: the kinds that apply to a failure. \<open>NetworkError\<close> when the transport
  could not reach the server, \<open>ClientError\<close> for a 4xx status, \<open>ServerError\<close>
  for a 5xx status.
\<close>

datatype error_kind = NetworkError | ClientError | ServerError

fun spec_error_kinds :: "'b axios_error \<Rightarrow> error_kind list" where
  "spec_error_kinds (AxiosError None) = [NetworkError]"
| "spec_error_kinds (AxiosError (Some (st, b))) =
     (if 400 \<le> st \<and> st < 500 then [ClientError] else []) @
     (if 500 \<le> st \<and> st < 600 then [ServerError] else [])"

section \<open>Cached Query Store\<close>

text \<open>
  A query key is the array a page passes as \<^verbatim>\<open>queryKey\<close>, such as
  \<^verbatim>\<open>['pending-items', page]\<close>.
\<close>

type_synonym query_key = "jsval list"

text \<open>
  Modelled from the spec: a key pattern such as \<^verbatim>\<open>items:list:pending:*\<close> matches
  every key it is a prefix of, so \<^verbatim>\<open>['pending-items']\<close> covers the entries of
  all pages.
\<close>

fun key_matches :: "query_key \<Rightarrow> query_key \<Rightarrow> bool" where
  "key_matches [] k = True"
| "key_matches (p # ps) [] = False"
| "key_matches (p # ps) (x # xs) = (p = x \<and> key_matches ps xs)"

text \<open>
  Modelled from the spec: the Cached Query Store, which the pages reach through
  \<^verbatim>\<open>useQuery\<close> and \<^verbatim>\<open>queryClient.invalidateQueries\<close> and whose code is not part
  of the sources. An entry is the last-known value of one key with its fetch time;
  \<open>invalidated\<close> marks it for re-fetch, \<open>failed\<close> is the error indicator of a
  failed read, \<open>gen\<close> is the generation tag of the latest request issued for the
  key and \<open>fetching\<close> says that the store still awaits that request.
\<close>

record 'b entry =
  data :: "'b option"
  fetched_at :: nat
  invalidated :: bool
  failed :: bool
  gen :: nat
  fetching :: bool

text \<open>
  Modelled from the spec: the process-wide store. \<open>in_flight\<close> holds the network
  requests sent and not yet answered, each tagged with its key and generation;
  \<open>issued\<close> logs every request ever sent and \<open>applied\<close> every response written
  into an entry, both in order.
\<close>

record 'b store =
  entries :: "query_key \<Rightarrow> 'b entry option"
  in_flight :: "(query_key \<times> nat) list"
  issued :: "(query_key \<times> nat) list"
  applied :: "(query_key \<times> nat) list"

definition empty_store :: "'b store" where
  "empty_store = \<lparr>entries = (\<lambda>_. None), in_flight = [], issued = [], applied = []\<rparr>"

definition empty_entry :: "'b entry" where
  "empty_entry =
     \<lparr>data = None, fetched_at = 0, invalidated = False, failed = False, gen = 0, fetching = False\<rparr>"

text \<open>
  Modelled from the spec: an entry is due for a fetch when it holds no value, was
  invalidated, or is older than the staleness threshold of the consumer; without a
  threshold (the default) every resolve re-fetches.
\<close>

definition needs_fetch :: "nat option \<Rightarrow> nat \<Rightarrow> 'b entry \<Rightarrow> bool" where
  "needs_fetch fresh_for now e =
     (data e = None \<or> invalidated e \<or>
      (case fresh_for of None \<Rightarrow> True | Some t \<Rightarrow> now - fetched_at e > t))"

text \<open>Modelled from the spec: sending the next request of a key, under a new tag.\<close>

definition start_fetch :: "query_key \<Rightarrow> 'b entry \<Rightarrow> 'b store \<Rightarrow> 'b store" where
  "start_fetch k e s =
     s\<lparr>entries := (entries s)(k \<mapsto> e\<lparr>gen := gen e + 1, fetching := True\<rparr>),
       in_flight := in_flight s @ [(k, gen e + 1)],
       issued := issued s @ [(k, gen e + 1)]\<rparr>"

text \<open>
  Modelled from the spec: \<^verbatim>\<open>resolve(key, fetcher, options)\<close> returns the cached
  value at once, if any and even if stale, and triggers a fetch when the entry is
  absent or due; while a fetch of the key is outstanding it joins that fetch and
  sends nothing.
\<close>

definition resolve :: "query_key \<Rightarrow> nat option \<Rightarrow> nat \<Rightarrow> 'b store \<Rightarrow> 'b option \<times> 'b store" where
  "resolve k fresh_for now s =
     (case entries s k of
        None \<Rightarrow> (None, start_fetch k empty_entry s)
      | Some e \<Rightarrow>
          (data e,
           if fetching e then s
           else if needs_fetch fresh_for now e then start_fetch k e s
           else s))"

text \<open>Modelled from the spec: \<^verbatim>\<open>invalidate(keyPattern)\<close> marks all matching entries stale.\<close>

definition invalidate :: "query_key \<Rightarrow> 'b store \<Rightarrow> 'b store" where
  "invalidate pat s =
     s\<lparr>entries := (\<lambda>k. case entries s k of
                          None \<Rightarrow> None
                        | Some e \<Rightarrow> Some (if key_matches pat k then e\<lparr>invalidated := True\<rparr> else e))\<rparr>"

text \<open>
  Modelled from the spec: navigating away, or re-triggering a key before its fetch
  resolves, logically cancels the fetch: the store stops awaiting it, while the
  network request itself may still complete.
\<close>

definition cancel :: "query_key \<Rightarrow> 'b store \<Rightarrow> 'b store" where
  "cancel k s =
     (case entries s k of
        None \<Rightarrow> s
      | Some e \<Rightarrow> s\<lparr>entries := (entries s)(k \<mapsto> e\<lparr>fetching := False\<rparr>)\<rparr>)"

text \<open>
  Modelled from the spec: the response of the request tagged \<open>(k, g)\<close> arrives. It
  overwrites the entry only if the store still awaits exactly that generation; the
  response of a superseded request is dropped.
\<close>

definition respond :: "query_key \<Rightarrow> nat \<Rightarrow> 'b \<Rightarrow> nat \<Rightarrow> 'b store \<Rightarrow> 'b store" where
  "respond k g d now s =
     (if (k, g) \<notin> set (in_flight s) then s
      else
        (case entries s k of
           None \<Rightarrow> s\<lparr>in_flight := remove1 (k, g) (in_flight s)\<rparr>
         | Some e \<Rightarrow>
             if fetching e \<and> gen e = g
             then s\<lparr>entries := (entries s)(k \<mapsto>
                       e\<lparr>data := Some d, fetched_at := now, invalidated := False,
                         failed := False, fetching := False\<rparr>),
                    in_flight := remove1 (k, g) (in_flight s),
                    applied := applied s @ [(k, g)]\<rparr>
             else s\<lparr>in_flight := remove1 (k, g) (in_flight s)\<rparr>))"

text \<open>
  Modelled from the spec: a read that fails leaves the previous value in place
  beside an error indicator.
\<close>

definition fail_fetch :: "query_key \<Rightarrow> nat \<Rightarrow> 'b store \<Rightarrow> 'b store" where
  "fail_fetch k g s =
     (if (k, g) \<notin> set (in_flight s) then s
      else
        (case entries s k of
           None \<Rightarrow> s\<lparr>in_flight := remove1 (k, g) (in_flight s)\<rparr>
         | Some e \<Rightarrow>
             if fetching e \<and> gen e = g
             then s\<lparr>entries := (entries s)(k \<mapsto> e\<lparr>failed := True, fetching := False\<rparr>),
                    in_flight := remove1 (k, g) (in_flight s)\<rparr>
             else s\<lparr>in_flight := remove1 (k, g) (in_flight s)\<rparr>))"

text \<open>
  Modelled from the spec: the store runs on a single event loop, so its history is
  a sequence of these events, in any interleaving. A polling tick and the re-read a
  mounted consumer makes after an invalidation are both a \<open>Resolve\<close>.
\<close>

datatype 'b store_event =
    Resolve query_key "nat option" nat
  | Invalidate query_key
  | Cancel query_key
  | Respond query_key nat 'b nat
  | Fail query_key nat

fun store_step :: "'b store \<Rightarrow> 'b store_event \<Rightarrow> 'b store" where
  "store_step s (Resolve k fresh_for now) = snd (resolve k fresh_for now s)"
| "store_step s (Invalidate pat) = invalidate pat s"
| "store_step s (Cancel k) = cancel k s"
| "store_step s (Respond k g d now) = respond k g d now s"
| "store_step s (Fail k g) = fail_fetch k g s"

definition store_run :: "'b store_event list \<Rightarrow> 'b store" where
  "store_run evs = foldl store_step empty_store evs"


text \<open>The generation tags a log holds for a key, in the order of the log.\<close>

definition gens_of :: "query_key \<Rightarrow> (query_key \<times> nat) list \<Rightarrow> nat list" where
  "gens_of k rs = map snd (filter (\<lambda>r. fst r = k) rs)"

text \<open>The latest generation of a key, and whether the store awaits a fetch of it.\<close>

definition gen_at :: "'b store \<Rightarrow> query_key \<Rightarrow> nat" where
  "gen_at s k = (case entries s k of None \<Rightarrow> 0 | Some e \<Rightarrow> gen e)"

definition fetching_at :: "'b store \<Rightarrow> query_key \<Rightarrow> bool" where
  "fetching_at s k = (case entries s k of None \<Rightarrow> False | Some e \<Rightarrow> fetching e)"




section \<open>Mutation Dispatcher\<close>

text \<open>
  What the callbacks of a \<^verbatim>\<open>useMutation\<close> hook do:
  \<^verbatim>\<open>queryClient.invalidateQueries({ queryKey })\<close>, or something that stays
  inside the view (an \<^verbatim>\<open>alert\<close>, a \<^verbatim>\<open>useState\<close> setter, a timer).
\<close>

datatype effect = InvalidateQueries query_key | ViewOnly

fun run_effect :: "'b store \<Rightarrow> effect \<Rightarrow> 'b store" where
  "run_effect s (InvalidateQueries k) = invalidate k s"
| "run_effect s ViewOnly = s"

definition run_effects :: "effect list \<Rightarrow> 'b store \<Rightarrow> 'b store" where
  "run_effects effs s = foldl run_effect s effs"

text \<open>
  The \<^verbatim>\<open>useMutation\<close> hooks of the pages, one constructor each, with the
  argument of \<^verbatim>\<open>mutate\<close> (for the analysis of the Opportunities page: the
  \<^verbatim>\<open>limit\<close>, \<^verbatim>\<open>minPrice\<close> and \<^verbatim>\<open>maxPrice\<close> its closure reads).
\<close>

datatype mutation =
    Items_approveMutation string
  | Items_rejectMutation string
  | Opportunities_analyzeMutation rat rat rat
  | Opportunities_approveMutation string
  | Opportunities_rejectMutation string
  | Orders_completeMutation string
  | Settings_startMutation
  | Settings_stopMutation
  | Settings_testTelegramMutation
  | Settings_scrapeCategoryMutation string
  | Dashboard_scrapeMutation "string list"

fun mutationFn :: "mutation \<Rightarrow> api_op" where
  "mutationFn (Items_approveMutation i) = ItemsApi (ItemsApprove i JUndefined)"
| "mutationFn (Items_rejectMutation i) = ItemsApi (ItemsReject i JUndefined)"
| "mutationFn (Opportunities_analyzeMutation limit minPrice maxPrice) =
     AiApi (AiAnalyzePending
       (JObj [(''limit'', JNum limit), (''min_price'', JNum minPrice), (''max_price'', JNum maxPrice)]))"
| "mutationFn (Opportunities_approveMutation i) = ItemsApi (ItemsApprove i JUndefined)"
| "mutationFn (Opportunities_rejectMutation i) = ItemsApi (ItemsReject i JUndefined)"
| "mutationFn (Orders_completeMutation i) = OrdersApi (OrdersComplete i)"
| "mutationFn Settings_startMutation = SchedulerApi SchedulerStart"
| "mutationFn Settings_stopMutation = SchedulerApi SchedulerStop"
| "mutationFn Settings_testTelegramMutation = SchedulerApi SchedulerTestTelegram"
| "mutationFn (Settings_scrapeCategoryMutation c) = SchedulerApi (SchedulerScrapeCategory c)"
| "mutationFn (Dashboard_scrapeMutation queries) = ScraperApi (ScraperStartScraping queries None)"

text \<open>No hook of the sources passes \<^verbatim>\<open>onMutate\<close>.\<close>

fun onMutate :: "mutation \<Rightarrow> effect list" where
  "onMutate m = []"

fun onSuccess :: "mutation \<Rightarrow> effect list" where
  "onSuccess (Items_approveMutation i) =
     [InvalidateQueries [JStr ''pending-items''], InvalidateQueries [JStr ''dashboard-stats'']]"
| "onSuccess (Items_rejectMutation i) = [InvalidateQueries [JStr ''pending-items'']]"
| "onSuccess (Opportunities_analyzeMutation limit minPrice maxPrice) =
     [InvalidateQueries [JStr ''opportunities''], InvalidateQueries [JStr ''pending-items''], ViewOnly]"
| "onSuccess (Opportunities_approveMutation i) =
     [InvalidateQueries [JStr ''opportunities''], InvalidateQueries [JStr ''pending-items'']]"
| "onSuccess (Opportunities_rejectMutation i) =
     [InvalidateQueries [JStr ''opportunities''], InvalidateQueries [JStr ''pending-items'']]"
| "onSuccess (Orders_completeMutation i) =
     [InvalidateQueries [JStr ''orders''], InvalidateQueries [JStr ''dashboard-stats'']]"
| "onSuccess Settings_startMutation = [InvalidateQueries [JStr ''scheduler-status'']]"
| "onSuccess Settings_stopMutation = [InvalidateQueries [JStr ''scheduler-status'']]"
| "onSuccess Settings_testTelegramMutation = [ViewOnly]"
| "onSuccess (Settings_scrapeCategoryMutation c) = [ViewOnly, InvalidateQueries [JStr ''pending-items'']]"
| "onSuccess (Dashboard_scrapeMutation queries) = [ViewOnly, ViewOnly]"

text \<open>Only the Telegram test of the Settings page has an \<^verbatim>\<open>onError\<close>: an alert.\<close>

fun onError :: "mutation \<Rightarrow> effect list" where
  "onError Settings_testTelegramMutation = [ViewOnly]"
| "onError m = []"

text \<open>What the view reads back from the hook once the call has settled.\<close>

datatype 'b mutation_result = MutationSuccess "'b option" | MutationError "'b axios_error"

text \<open>
  Modelled from the spec: the Mutation Dispatcher behind \<^verbatim>\<open>mutate\<close>. It runs
  \<^verbatim>\<open>onMutate\<close> when the call is dispatched, then the client operation, then
  \<^verbatim>\<open>onSuccess\<close> after a success or \<^verbatim>\<open>onError\<close> after a failure, and hands
  the outcome to the view; it never retries.
\<close>

definition mutate_dispatched :: "mutation \<Rightarrow> 'b store \<Rightarrow> 'b store" where
  "mutate_dispatched m s = run_effects (onMutate m) s"

definition mutate_settled :: "mutation \<Rightarrow> 'b axios_error + 'b option \<Rightarrow> 'b store \<Rightarrow> 'b mutation_result \<times> 'b store" where
  "mutate_settled m res s =
     (case res of
        Inr d \<Rightarrow> (MutationSuccess d, run_effects (onSuccess m) s)
      | Inl e \<Rightarrow> (MutationError e, run_effects (onError m) s))"

definition mutate :: "('sv, 'b) server \<Rightarrow> mutation \<Rightarrow> 'b store \<times> 'sv wire \<Rightarrow> 'b mutation_result \<times> 'b store \<times> 'sv wire" where
  "mutate srv m sw =
     (case api_call srv (mutationFn m) (snd sw) of
        (res, w') \<Rightarrow>
          (case mutate_settled m res (mutate_dispatched m (fst sw)) of
             (out, s') \<Rightarrow> (out, s', w')))"

section \<open>Backend contracts the client relies on\<close>

text \<open>
  Modelled from the spec: a paginated list endpoint of the backend, which is not
  part of the sources. Over the rows that pass the filter, a query with
  \<^verbatim>\<open>page = p\<close> and \<^verbatim>\<open>per_page = n\<close> answers with the \<open>p\<close>-th slice of
  \<open>n\<close> rows, the number of rows, and the number of pages they fill.
\<close>

definition list_endpoint :: "'a list \<Rightarrow> int \<Rightarrow> int \<Rightarrow> 'a list_response" where
  "list_endpoint rows p n =
     \<lparr>items = take (nat n) (drop (nat ((p - 1) * n)) rows),
      total = int (length rows),
      page = p,
      per_page = n,
      pages = (int (length rows) + n - 1) div n\<rparr>"

text \<open>
  Modelled from the spec: the payload of a list endpoint,
  \<^verbatim>\<open>{items|listings|orders, total, page, per_page, pages}\<close>, with the rows under
  the key of the resource kind.
\<close>

definition list_payload :: "string \<Rightarrow> jsval list_response \<Rightarrow> jsval" where
  "list_payload key r =
     JObj [(key, JArr (items r)),
           (''total'', JNum (of_int (total r))),
           (''page'', JNum (of_int (page r))),
           (''per_page'', JNum (of_int (per_page r))),
           (''pages'', JNum (of_int (pages r)))]"

text \<open>Modelled from the spec: the list endpoints and the kind of resource each lists.\<close>

definition list_key :: "string \<Rightarrow> string option" where
  "list_key url =
     (if url = ''/items'' \<or> url = ''/items/pending'' then Some ''items''
      else if url = ''/listings'' \<or> url = ''/listings/active'' then Some ''listings''
      else if url = ''/orders'' \<or> url = ''/orders/pending'' then Some ''orders''
      else None)"

text \<open>A field of a parameter object, and the integer a JavaScript value holds, if any.\<close>

fun js_lookup :: "string \<Rightarrow> jsval \<Rightarrow> jsval" where
  "js_lookup k (JObj kvs) = (case map_of kvs k of None \<Rightarrow> JUndefined | Some v \<Rightarrow> v)"
| "js_lookup k v = JUndefined"

fun int_of_js :: "jsval \<Rightarrow> int option" where
  "int_of_js (JNum q) = (if of_int \<lfloor>q\<rfloor> = q then Some \<lfloor>q\<rfloor> else None)"
| "int_of_js v = None"

text \<open>
  Modelled from the spec: the backend behind the list endpoints. \<open>rows\<close> gives the
  rows that pass the filter of a request. A \<^verbatim>\<open>GET\<close> on a list endpoint whose
  query names \<^verbatim>\<open>page\<close> and a positive \<^verbatim>\<open>per_page\<close> is answered 200 with the
  payload of that page; the spec describes no list query without them, which is
  refused here as bad input, and anything else is not found.
\<close>

definition list_backend :: "(request \<Rightarrow> jsval list) \<Rightarrow> ('sv, jsval) server" where
  "list_backend rows =
     (\<lambda>sv req.
        (if req_method req \<noteq> GET then Response 404 JNull
         else
           (case list_key (req_url req) of
              None \<Rightarrow> Response 404 JNull
            | Some key \<Rightarrow>
                (case int_of_js (js_lookup ''page'' (req_params req)) of
                   None \<Rightarrow> Response 422 JNull
                 | Some p \<Rightarrow>
                     (case int_of_js (js_lookup ''per_page'' (req_params req)) of
                        None \<Rightarrow> Response 422 JNull
                      | Some n \<Rightarrow>
                          if 0 < n
                          then Response 200 (list_payload key (list_endpoint (rows req) p n))
                          else Response 422 JNull))),
         sv))"

text \<open>
  The six paginated list operations of \<^verbatim>\<open>api.ts\<close>, with the parameter object
  the caller passes, and the key under which each payload carries its rows (the
  pages read \<^verbatim>\<open>data.items\<close>, \<^verbatim>\<open>data.listings\<close>, \<^verbatim>\<open>data.orders\<close>).
\<close>

datatype list_query =
    ItemsAll | ItemsPending | ListingsAll | ListingsActive | OrdersAll | OrdersPending

fun list_op :: "list_query \<Rightarrow> jsval \<Rightarrow> api_op" where
  "list_op ItemsAll params = ItemsApi (ItemsGetAll params)"
| "list_op ItemsPending params = ItemsApi (ItemsGetPending params)"
| "list_op ListingsAll params = ListingsApi (ListingsGetAll params)"
| "list_op ListingsActive params = ListingsApi (ListingsGetActive params)"
| "list_op OrdersAll params = OrdersApi (OrdersGetAll params)"
| "list_op OrdersPending params = OrdersApi (OrdersGetPending params)"

fun resource_key :: "list_query \<Rightarrow> string" where
  "resource_key ItemsAll = ''items''"
| "resource_key ItemsPending = ''items''"
| "resource_key ListingsAll = ''listings''"
| "resource_key ListingsActive = ''listings''"
| "resource_key OrdersAll = ''orders''"
| "resource_key OrdersPending = ''orders''"

text \<open>
  The query of the Items page:
  \<^verbatim>\<open>queryFn: () => itemsApi.getPending({ page, per_page: 12 })\<close>.
\<close>

definition Items_queryFn :: "int \<Rightarrow> api_op" where
  "Items_queryFn p =
     list_op ItemsPending (JObj [(''page'', JNum (of_int p)), (''per_page'', JNum 12)])"





section \<open>Concrete scenarios\<close>

text \<open>Responses of \<^verbatim>\<open>GET /items/pending\<close> with no rows shown, reporting three and two pages.\<close>

definition three_pages :: "item list_response" where
  "three_pages = \<lparr>items = [], total = 30, page = 1, per_page = 12, pages = 3\<rparr>"

definition two_pages :: "item list_response" where
  "two_pages = \<lparr>items = [], total = 24, page = 3, per_page = 12, pages = 2\<rparr>"

text \<open>
  The user walks to the last of three pages; the list then shrinks (the last item
  of the page was approved) and the re-fetch of page 3 reports two pages.
\<close>

definition shrinking_run :: "page_event list" where
  "shrinking_run =
     [Fetched 1 three_pages, ClickNext, Fetched 2 three_pages, ClickNext,
      Fetched 3 three_pages, Fetched 3 two_pages]"

text \<open>The same walk with a list that keeps its three pages, and one click too many.\<close>

definition steady_run :: "page_event list" where
  "steady_run =
     [Fetched 1 three_pages, ClickNext, Fetched 2 three_pages, ClickNext,
      Fetched 3 three_pages, ClickNext]"

text \<open>Every response of a run reports the same number of pages.\<close>

definition uniform_pages :: "int \<Rightarrow> page_event list \<Rightarrow> bool" where
  "uniform_pages P evs = list_all (\<lambda>ev. list_all (\<lambda>n. n = P) (fetched_pages ev)) evs"

text \<open>Five fetched items: two below the threshold or unscored, two with equal scores.\<close>

definition sample_items :: "item list_response" where
  "sample_items =
     \<lparr>items =
        [\<lparr>item_id = ''a'', original_price = 10, ai_score = Some 70, status = ''pending''\<rparr>,
         \<lparr>item_id = ''b'', original_price = 10, ai_score = None, status = ''pending''\<rparr>,
         \<lparr>item_id = ''c'', original_price = 10, ai_score = Some 90, status = ''pending''\<rparr>,
         \<lparr>item_id = ''d'', original_price = 10, ai_score = Some 59, status = ''pending''\<rparr>,
         \<lparr>item_id = ''e'', original_price = 10, ai_score = Some 70, status = ''pending''\<rparr>],
      total = 5, page = 1, per_page = 20, pages = 1\<rparr>"

text \<open>A backend that answers every request with the same status and an empty body.\<close>

definition answering :: "nat \<Rightarrow> (unit, jsval) server" where
  "answering st = (\<lambda>sv req. (Response st JNull, sv))"

text \<open>A backend that cannot be reached.\<close>

definition unreachable :: "(unit, jsval) server" where
  "unreachable = (\<lambda>sv req. (NoResponse, sv))"


text \<open>A store that holds one settled entry, under the given key.\<close>

definition store_with :: "query_key \<Rightarrow> jsval \<Rightarrow> jsval store" where
  "store_with k v =
     empty_store\<lparr>entries := (\<lambda>_. None)(k \<mapsto>
       \<lparr>data = Some v, fetched_at = 0, invalidated = False, failed = False, gen = 1, fetching = False\<rparr>)\<rparr>"

text \<open>
  A backend whose every list has the same five rows, and the parameter object of
  the Listings page for the second page of two active listings.
\<close>

definition five_rows :: "request \<Rightarrow> jsval list" where
  "five_rows = (\<lambda>req. [JNum 1, JNum 2, JNum 3, JNum 4, JNum 5])"

definition second_of_two :: jsval where
  "second_of_two = JObj [(''page'', JNum 2), (''per_page'', JNum 2), (''status'', JStr ''active'')]"

text \<open>The keys of the Settings page's polled status and of the Dashboard's figures.\<close>

definition status_key :: query_key where
  "status_key = [JStr ''scheduler-status'']"

definition stats_key :: query_key where
  "stats_key = [JStr ''dashboard-stats'']"

text \<open>
  A fetch of the scheduler status is cancelled and issued again; the second
  response arrives first.
\<close>

definition superseding_run :: "jsval store_event list" where
  "superseding_run =
     [Resolve status_key None 0, Cancel status_key, Resolve status_key None 1,
      Respond status_key 2 (JStr ''new'') 2]"



text \<open>
  The Dashboard's figures are cached, and an item is approved with the backend
  answering 200: the store afterwards, by the hook that was used.
\<close>

definition stats_cached :: "jsval store" where
  "stats_cached = store_with stats_key (JObj [(''items'', JObj [(''pending'', JNum 3)])])"

definition after_approve :: "mutation \<Rightarrow> jsval store" where
  "after_approve m = fst (snd (mutate (answering 200) m (stats_cached, ((), []))))"

section \<open>Invariants\<close>

text \<open>
  What every history of the store keeps: the requests on the network are distinct
  and were all issued; no tag of a key exceeds the key's latest generation; a
  response that was applied is older than a fetch still awaited; and the tags of a
  key grow along both logs.
\<close>

definition store_inv :: "'b store \<Rightarrow> bool" where
  "store_inv s =
     (distinct (in_flight s) \<and>
      set (in_flight s) \<subseteq> set (issued s) \<and>
      (\<forall>r \<in> set (issued s). 1 \<le> snd r \<and> snd r \<le> gen_at s (fst r)) \<and>
      (\<forall>r \<in> set (applied s). snd r \<le> gen_at s (fst r) \<and>
                              (fetching_at s (fst r) \<longrightarrow> snd r < gen_at s (fst r))) \<and>
      (\<forall>k. sorted_wrt (<) (gens_of k (issued s))) \<and>
      (\<forall>k. sorted_wrt (<) (gens_of k (applied s))))"

text \<open>
  While all responses agree on \<open>P\<close> pages, the page number stays at or below \<open>P\<close>
  and every cached response reports \<open>P\<close>.
\<close>

definition page_inv :: "int \<Rightarrow> items_page \<Rightarrow> bool" where
  "page_inv P st = (cur_page st \<le> P \<and> (\<forall>p r. responses st p = Some r \<longrightarrow> pages r = P))"

section \<open>Opportunities page: cards\<close>

lemma set_insert_by: "set (insert_by cmp x xs) = insert x (set xs)"
  by (induction xs) auto

lemma mset_insert_by: "mset (insert_by cmp x xs) = add_mset x (mset xs)"
  by (induction xs) auto

lemma mset_js_sort: "mset (js_sort cmp xs) = mset xs"
  by (induction xs) (auto simp: mset_insert_by)

lemma score_or_zero_filtered:
  "score_filter it \<Longrightarrow> ai_score it = Some (score_or_zero it)"
  by (auto simp: score_filter_def score_or_zero_def split: option.splits)

lemma score_filter_iff: "score_filter it \<longleftrightarrow> (\<exists>s. ai_score it = Some s \<and> 60 \<le> s)"
  by (auto simp: score_filter_def split: option.splits)

text \<open>Non-increasing order of \<^verbatim>\<open>ai_score\<close>, every score being present.\<close>

lemma sorted_insert_by:
  "sorted_wrt (\<lambda>a b. score_or_zero b \<le> score_or_zero a) xs \<Longrightarrow>
   sorted_wrt (\<lambda>a b. score_or_zero b \<le> score_or_zero a) (insert_by compare_score x xs)"
  by (induction xs) (auto simp: set_insert_by compare_score_def)

lemma sorted_js_sort:
  "sorted_wrt (\<lambda>a b. score_or_zero b \<le> score_or_zero a) (js_sort compare_score xs)"
  by (induction xs) (auto simp: sorted_insert_by)

lemma opportunity_cards_fetched:
  "opportunity_cards False (Some r) = js_sort compare_score (filter score_filter (items r))"
  by (simp add: opportunity_cards_def analyzedItems_def)

text \<open>
  On the sample, the two unscored or low-scored items get no card, the best score
  comes first, and the two items with equal scores keep their order.
\<close>

lemma opportunity_cards_sample:
  "map item_id (opportunity_cards False (Some sample_items)) = [''c'', ''a'', ''e'']"
  by (simp add: opportunity_cards_def analyzedItems_def sample_items_def score_filter_def
      compare_score_def score_or_zero_def)

text \<open>
  C9. On the Opportunities page, once a list has been fetched (the query then is
  not loading), the cards are exactly the fetched items whose \<^verbatim>\<open>ai_score\<close> is
  present and at least 60, each as often as it occurs in the list, and they appear
  in non-increasing order of \<^verbatim>\<open>ai_score\<close>.
\<close>

theorem opportunity_cards_filtered_sorted:
  "mset (opportunity_cards False (Some r)) =
     filter_mset (\<lambda>it. \<exists>s. ai_score it = Some s \<and> 60 \<le> s) (mset (items r))
   \<and> sorted_wrt (\<lambda>a b. \<exists>x y. ai_score a = Some x \<and> ai_score b = Some y \<and> y \<le> x)
        (opportunity_cards False (Some r))"
proof
  have "mset (opportunity_cards False (Some r)) = filter_mset score_filter (mset (items r))"
    by (simp add: opportunity_cards_fetched mset_js_sort)
  also have "\<dots> = filter_mset (\<lambda>it. \<exists>s. ai_score it = Some s \<and> 60 \<le> s) (mset (items r))"
    by (rule filter_mset_cong) (simp_all add: score_filter_iff)
  finally show "mset (opportunity_cards False (Some r)) =
     filter_mset (\<lambda>it. \<exists>s. ai_score it = Some s \<and> 60 \<le> s) (mset (items r))" .
next
  let ?cards = "opportunity_cards False (Some r)"
  have all: "\<And>it. it \<in> set ?cards \<Longrightarrow> score_filter it"
  proof -
    fix it assume "it \<in> set ?cards"
    then have "it \<in># mset ?cards" by simp
    then have "it \<in># filter_mset score_filter (mset (items r))"
      by (simp add: opportunity_cards_fetched mset_js_sort)
    then show "score_filter it" by simp
  qed
  have "sorted_wrt (\<lambda>a b. score_or_zero b \<le> score_or_zero a) ?cards"
    by (simp add: opportunity_cards_fetched sorted_js_sort)
  then show "sorted_wrt (\<lambda>a b. \<exists>x y. ai_score a = Some x \<and> ai_score b = Some y \<and> y \<le> x) ?cards"
    by (rule sorted_wrt_mono_rel[rotated]) (auto dest!: all score_or_zero_filtered)
qed

section \<open>Items page: the page number and the pages of the response\<close>

lemma click_prev_ge1: "1 \<le> cur_page st \<Longrightarrow> 1 \<le> cur_page (click_prev st)"
  by (simp add: click_prev_def)

lemma click_next_ge1: "1 \<le> cur_page st \<Longrightarrow> 1 \<le> cur_page (click_next st)"
  by (simp add: click_next_def split: option.splits)

lemma page_step_ge1: "1 \<le> cur_page st \<Longrightarrow> 1 \<le> cur_page (page_step st ev)"
  by (cases ev) (simp_all add: click_prev_ge1 click_next_ge1)

lemma foldl_page_step_ge1: "1 \<le> cur_page st \<Longrightarrow> 1 \<le> cur_page (foldl page_step st evs)"
  by (induction evs arbitrary: st) (simp_all add: page_step_ge1)

lemma page_step_inv:
  "1 \<le> P \<Longrightarrow> page_inv P st \<Longrightarrow> list_all (\<lambda>n. n = P) (fetched_pages ev) \<Longrightarrow>
   page_inv P (page_step st ev)"
  by (cases ev)
     (auto simp: page_inv_def click_prev_def click_next_def page_data_def split: option.splits)

lemma foldl_page_step_inv:
  "1 \<le> P \<Longrightarrow> page_inv P st \<Longrightarrow> uniform_pages P evs \<Longrightarrow> page_inv P (foldl page_step st evs)"
proof (induction evs arbitrary: st)
  case Nil
  then show ?case by simp
next
  case (Cons ev evs)
  then show ?case by (simp add: uniform_pages_def page_step_inv)
qed

text \<open>
  The query key carries the page number: a response that arrives for another page
  than the current one is stored under its own key and leaves \<^verbatim>\<open>data\<close> as it is.
\<close>

lemma late_page_response_keeps_data:
  "p \<noteq> cur_page st \<Longrightarrow> page_data (page_step st (Fetched p r)) = page_data st"
  by (simp add: page_data_def)

text \<open>
  What the two click handlers do keep: the page number never falls below 1, and it
  stays at or below \<^verbatim>\<open>data.pages\<close> as long as every response reports the same
  number of pages.
\<close>

lemma pagination_bounds:
  "1 \<le> cur_page (page_run evs) \<and>
   (1 \<le> P \<and> uniform_pages P evs \<longrightarrow>
      (case page_data (page_run evs) of
         None \<Rightarrow> True
       | Some d \<Rightarrow> cur_page (page_run evs) \<le> pages d))"
proof (intro conjI impI)
  show "1 \<le> cur_page (page_run evs)"
    unfolding page_run_def by (rule foldl_page_step_ge1) (simp add: items_page_init_def)
next
  assume a: "1 \<le> P \<and> uniform_pages P evs"
  then have "page_inv P items_page_init"
    by (simp add: page_inv_def items_page_init_def)
  then have "page_inv P (page_run evs)"
    unfolding page_run_def using a by (intro foldl_page_step_inv) simp_all
  then show "case page_data (page_run evs) of
               None \<Rightarrow> True
             | Some d \<Rightarrow> cur_page (page_run evs) \<le> pages d"
    by (auto simp: page_inv_def page_data_def split: option.splits)
qed

lemma pagination_bounds_steady:
  "(1::int) \<le> 3 \<and> uniform_pages 3 steady_run \<and>
   1 \<le> cur_page (page_run steady_run) \<and>
   page_data (page_run steady_run) = Some three_pages \<and>
   cur_page (page_run steady_run) \<le> pages three_pages"
proof -
  have h1: "(1::int) \<le> 3" by simp
  have h2: "uniform_pages 3 steady_run"
    by (simp add: uniform_pages_def steady_run_def three_pages_def)
  have d: "page_data (page_run steady_run) = Some three_pages"
    by (simp add: page_run_def steady_run_def items_page_init_def click_next_def
        page_data_def three_pages_def)
  show ?thesis
    using h1 h2 d pagination_bounds [of steady_run 3] by simp
qed

text \<open>
  C10. The claim is that \<^verbatim>\<open>page <= data.pages\<close> holds whenever data is present.
  The page clamps the number on a click only: when the user stands on page 3 of 3
  and the re-fetch of that page reports two pages (the last item of the last page
  was approved), the page number stays 3 and the page reads 3 of 2.
\<close>

theorem items_page_exceeds_pages:
  "concat (map fetched_pages shrinking_run) = [3, 3, 3, 2] \<and>
   page_data (page_run shrinking_run) = Some two_pages \<and>
   \<not> cur_page (page_run shrinking_run) \<le> pages two_pages"
  by (simp add: page_run_def shrinking_run_def items_page_init_def click_next_def
      page_data_def three_pages_def two_pages_def)

section \<open>Remote Resource Client: failures, requests, lists\<close>

lemma api_call_sent: "snd (snd (api_call srv op w)) = snd w @ [request_of op]"
  by (simp add: api_call_def split: prod.splits)

lemma api_call_settle:
  "fst (api_call srv op w) =
     (case settle (fst (srv (fst w) (request_of op))) of
        Inl e \<Rightarrow> Inl e
      | Inr b \<Rightarrow> Inr (response_data op b))"
  by (simp add: api_call_def split: prod.splits)

text \<open>
  C5, as amended. Every failure of a client operation is classified into exactly
  one of the three error kinds (\<open>NetworkError\<close> when the exchange brings no
  response, \<open>ClientError\<close> for a 4xx response, \<open>ServerError\<close> for a 5xx
  response), except the failure on a response whose status is outside 200..299
  and neither 4xx nor 5xx, which is of none of the three. The caller gets the
  error of the exchange itself, with the status and body of the response; an
  operation fails in these cases only, sends exactly one request, and is not
  retried.
\<close>

theorem client_failure_kinds:
  "snd (snd (api_call srv op w)) = snd w @ [request_of op] \<and>
   (fst (srv (fst w) (request_of op)) = NoResponse \<longrightarrow>
      fst (api_call srv op w) = Inl (AxiosError None) \<and>
      spec_error_kinds (AxiosError None :: 'b axios_error) = [NetworkError]) \<and>
   (fst (srv (fst w) (request_of op)) = Response st b \<and> 400 \<le> st \<and> st < 500 \<longrightarrow>
      fst (api_call srv op w) = Inl (AxiosError (Some (st, b))) \<and>
      spec_error_kinds (AxiosError (Some (st, b))) = [ClientError]) \<and>
   (fst (srv (fst w) (request_of op)) = Response st b \<and> 500 \<le> st \<and> st < 600 \<longrightarrow>
      fst (api_call srv op w) = Inl (AxiosError (Some (st, b))) \<and>
      spec_error_kinds (AxiosError (Some (st, b))) = [ServerError]) \<and>
   (fst (srv (fst w) (request_of op)) = Response st b \<and>
      \<not> (200 \<le> st \<and> st < 300) \<and> \<not> (400 \<le> st \<and> st < 600) \<longrightarrow>
      fst (api_call srv op w) = Inl (AxiosError (Some (st, b))) \<and>
      spec_error_kinds (AxiosError (Some (st, b))) = []) \<and>
   (fst (srv (fst w) (request_of op)) = Response st b \<and> 200 \<le> st \<and> st < 300 \<longrightarrow>
      fst (api_call srv op w) = Inr (response_data op b))"
  by (simp add: api_call_sent api_call_settle validateStatus_def)

theorem client_failure_kinds_witness:
  "fst (unreachable (fst ((), [])) (request_of (ItemsApi (ItemsGetById ''42'')))) = NoResponse \<and>
   fst (api_call unreachable (ItemsApi (ItemsGetById ''42'')) ((), [])) = Inl (AxiosError None) \<and>
   spec_error_kinds (AxiosError None :: jsval axios_error) = [NetworkError] \<and>
   fst (answering 404 (fst ((), [])) (request_of (ItemsApi (ItemsGetById ''42''))))
     = Response 404 JNull \<and>
   fst (api_call (answering 404) (ItemsApi (ItemsGetById ''42'')) ((), []))
     = Inl (AxiosError (Some (404, JNull))) \<and>
   spec_error_kinds (AxiosError (Some (404, JNull)) :: jsval axios_error) = [ClientError] \<and>
   fst (answering 500 (fst ((), [])) (request_of (OrdersApi (OrdersComplete ''7''))))
     = Response 500 JNull \<and>
   fst (api_call (answering 500) (OrdersApi (OrdersComplete ''7'')) ((), []))
     = Inl (AxiosError (Some (500, JNull))) \<and>
   spec_error_kinds (AxiosError (Some (500, JNull)) :: jsval axios_error) = [ServerError] \<and>
   fst (answering 304 (fst ((), [])) (request_of (ItemsApi (ItemsGetById ''42''))))
     = Response 304 JNull \<and>
   fst (api_call (answering 304) (ItemsApi (ItemsGetById ''42'')) ((), []))
     = Inl (AxiosError (Some (304, JNull))) \<and>
   fst (answering 200 (fst ((), [])) (request_of (ItemsApi (ItemsDelete ''42''))))
     = Response 200 JNull \<and>
   fst (api_call (answering 200) (ItemsApi (ItemsDelete ''42'')) ((), [])) = Inr None \<and>
   snd (snd (api_call (answering 500) (OrdersApi (OrdersComplete ''7'')) ((), [])))
     = [request_of (OrdersApi (OrdersComplete ''7''))]"
proof -
  have h0: "fst (unreachable (fst ((), [])) (request_of (ItemsApi (ItemsGetById ''42''))))
              = NoResponse"
    by (simp add: unreachable_def)
  have h4: "fst (answering 404 (fst ((), [])) (request_of (ItemsApi (ItemsGetById ''42''))))
              = Response 404 JNull"
    by (simp add: answering_def)
  have h5: "fst (answering 500 (fst ((), [])) (request_of (OrdersApi (OrdersComplete ''7''))))
              = Response 500 JNull"
    by (simp add: answering_def)
  have h3: "fst (answering 304 (fst ((), [])) (request_of (ItemsApi (ItemsGetById ''42''))))
              = Response 304 JNull"
    by (simp add: answering_def)
  have h2: "fst (answering 200 (fst ((), [])) (request_of (ItemsApi (ItemsDelete ''42''))))
              = Response 200 JNull"
    by (simp add: answering_def)
  show ?thesis
    using h0 h4 h5 h3 h2
      client_failure_kinds [of unreachable "ItemsApi (ItemsGetById ''42'')" "((), [])"]
      client_failure_kinds [of "answering 404" "ItemsApi (ItemsGetById ''42'')" "((), [])"
        404 JNull]
      client_failure_kinds [of "answering 500" "OrdersApi (OrdersComplete ''7'')" "((), [])"
        500 JNull]
      client_failure_kinds [of "answering 304" "ItemsApi (ItemsGetById ''42'')" "((), [])"
        304 JNull]
      client_failure_kinds [of "answering 200" "ItemsApi (ItemsDelete ''42'')" "((), [])"
        200 JNull]
    by (simp add: response_data_def)
qed

text \<open>
  The claim as stated fails on a response such as 304: the operation fails, and
  the error is neither a \<open>NetworkError\<close> nor a \<open>ClientError\<close> nor a
  \<open>ServerError\<close>.
\<close>

theorem client_failure_unclassified_counterexample:
  "fst (api_call (answering 304) (ItemsApi (ItemsGetById ''42'')) ((), []))
     = Inl (AxiosError (Some (304, JNull))) \<and>
   spec_error_kinds (AxiosError (Some (304, JNull)) :: jsval axios_error) = []"
  by (simp add: api_call_def answering_def validateStatus_def)



lemma pages_ceiling:
  fixes n t :: int
  assumes "0 < n"
  shows "(t + n - 1) div n = \<lceil>rat_of_int t / rat_of_int n\<rceil>"
proof -
  define k where "k = (t + n - 1) div n"
  have eq: "k * n + (t + n - 1) mod n = t + n - 1"
    by (simp add: k_def)
  have lo: "0 \<le> (t + n - 1) mod n" and hi: "(t + n - 1) mod n < n"
    using assms by simp_all
  have up: "t \<le> k * n" using eq hi by linarith
  have low: "(k - 1) * n < t" using eq lo by (simp add: algebra_simps)
  have "rat_of_int t \<le> rat_of_int (k * n)" using up by (simp only: of_int_le_iff)
  then have u: "rat_of_int t / rat_of_int n \<le> rat_of_int k"
    using assms by (simp add: pos_divide_le_eq)
  have "rat_of_int ((k - 1) * n) < rat_of_int t" using low by (simp only: of_int_less_iff)
  then have l: "rat_of_int k - 1 < rat_of_int t / rat_of_int n"
    using assms by (simp add: pos_less_divide_eq)
  have "\<lceil>rat_of_int t / rat_of_int n\<rceil> = k"
    using u l by (simp add: ceiling_eq_iff)
  then show ?thesis by (simp add: k_def)
qed

lemma list_endpoint_props:
  "0 < n \<Longrightarrow> int (length (items (list_endpoint rows p n))) \<le> n \<and>
     pages (list_endpoint rows p n) = \<lceil>rat_of_int (total (list_endpoint rows p n)) / rat_of_int n\<rceil> \<and>
     page (list_endpoint rows p n) = p \<and> per_page (list_endpoint rows p n) = n"
  by (simp add: list_endpoint_def pages_ceiling)

lemma list_op_request:
  "req_method (request_of (list_op q params)) = GET \<and>
   list_key (req_url (request_of (list_op q params))) = Some (resource_key q) \<and>
   req_params (request_of (list_op q params)) = params"
  by (cases q) (simp_all add: api_get_def list_key_def)

lemma list_op_returns_data: "returns_data (list_op q params)"
  by (cases q) simp_all

lemma list_backend_answers:
  assumes "int_of_js (js_lookup ''page'' params) = Some p"
    and "int_of_js (js_lookup ''per_page'' params) = Some n"
    and "0 < n"
  shows "fst (api_call (list_backend rows) (list_op q params) w)
           = Inr (Some (list_payload (resource_key q)
                          (list_endpoint (rows (request_of (list_op q params))) p n)))"
proof -
  have "fst (list_backend rows (fst w) (request_of (list_op q params)))
          = Response 200 (list_payload (resource_key q)
                            (list_endpoint (rows (request_of (list_op q params))) p n))"
    using assms by (simp add: list_backend_def list_op_request)
  then show ?thesis
    by (simp add: api_call_settle validateStatus_def response_data_def list_op_returns_data)
qed

text \<open>
  C7. For every resource kind, a list query with \<^verbatim>\<open>page = p\<close> and
  \<^verbatim>\<open>per_page = n\<close> (\<open>n\<close> positive) succeeds and hands the caller a payload
  \<^verbatim>\<open>{items|listings|orders, total, page, per_page, pages}\<close> that echoes the
  \<open>p\<close> and \<open>n\<close> of the query, holds at most \<open>n\<close> rows, counts the rows that
  pass the filter in \<^verbatim>\<open>total\<close>, and has \<^verbatim>\<open>pages = ceil(total / n)\<close>.
\<close>

theorem list_query_paginated:
  assumes "int_of_js (js_lookup ''page'' params) = Some p"
    and "int_of_js (js_lookup ''per_page'' params) = Some n"
    and "0 < n"
  shows "\<exists>r. fst (api_call (list_backend rows) (list_op q params) w)
                = Inr (Some (list_payload (resource_key q) r)) \<and>
             int (length (items r)) \<le> n \<and>
             total r = int (length (rows (request_of (list_op q params)))) \<and>
             pages r = \<lceil>rat_of_int (total r) / rat_of_int n\<rceil> \<and>
             page r = p \<and> per_page r = n"
proof -
  let ?r = "list_endpoint (rows (request_of (list_op q params))) p n"
  have "fst (api_call (list_backend rows) (list_op q params) w)
          = Inr (Some (list_payload (resource_key q) ?r))"
    using assms by (rule list_backend_answers)
  moreover have "total ?r = int (length (rows (request_of (list_op q params))))"
    by (simp add: list_endpoint_def)
  ultimately show ?thesis
    using list_endpoint_props [OF assms(3), of "rows (request_of (list_op q params))" p]
    by blast
qed

text \<open>The Items page asks for twelve rows of its page, and gets no more.\<close>

lemma Items_query_paginated:
  "\<exists>r. fst (api_call (list_backend rows) (Items_queryFn p) w)
          = Inr (Some (list_payload ''items'' r)) \<and>
        length (items r) \<le> 12 \<and> page r = p \<and> per_page r = 12 \<and>
        pages r = \<lceil>rat_of_int (total r) / 12\<rceil>"
proof -
  let ?params = "JObj [(''page'', JNum (of_int p)), (''per_page'', JNum 12)]"
  let ?r = "list_endpoint (rows (request_of (list_op ItemsPending ?params))) p 12"
  have "fst (api_call (list_backend rows) (list_op ItemsPending ?params) w)
          = Inr (Some (list_payload (resource_key ItemsPending) ?r))"
    by (rule list_backend_answers) simp_all
  then show ?thesis
    using list_endpoint_props [of 12 "rows (request_of (list_op ItemsPending ?params))" p]
    by (auto simp: Items_queryFn_def)
qed

theorem list_query_paginated_witness:
  "int_of_js (js_lookup ''page'' second_of_two) = Some 2 \<and>
   int_of_js (js_lookup ''per_page'' second_of_two) = Some 2 \<and>
   (0::int) < 2 \<and>
   fst (api_call (list_backend five_rows) (list_op ListingsActive second_of_two) ((), []))
     = Inr (Some (JObj [(''listings'', JArr [JNum 3, JNum 4]), (''total'', JNum 5),
                        (''page'', JNum 2), (''per_page'', JNum 2), (''pages'', JNum 3)])) \<and>
   (\<exists>r. fst (api_call (list_backend five_rows) (list_op ListingsActive second_of_two) ((), []))
           = Inr (Some (list_payload (resource_key ListingsActive) r)) \<and>
         int (length (items r)) \<le> 2 \<and>
         total r = int (length (five_rows (request_of (list_op ListingsActive second_of_two)))) \<and>
         pages r = \<lceil>rat_of_int (total r) / rat_of_int 2\<rceil> \<and>
         page r = 2 \<and> per_page r = 2)"
proof -
  have h1: "int_of_js (js_lookup ''page'' second_of_two) = Some 2"
    by (simp add: second_of_two_def)
  have h2: "int_of_js (js_lookup ''per_page'' second_of_two) = Some 2"
    by (simp add: second_of_two_def)
  have h3: "(0::int) < 2" by simp
  have e: "fst (api_call (list_backend five_rows) (list_op ListingsActive second_of_two) ((), []))
     = Inr (Some (JObj [(''listings'', JArr [JNum 3, JNum 4]), (''total'', JNum 5),
                        (''page'', JNum 2), (''per_page'', JNum 2), (''pages'', JNum 3)]))"
    by (simp add: api_call_def list_backend_def list_key_def api_get_def second_of_two_def
        five_rows_def list_payload_def list_endpoint_def validateStatus_def response_data_def)
  show ?thesis
    using h1 h2 h3 e
      list_query_paginated [OF h1 h2 h3, of five_rows ListingsActive "((), [])"]
    by simp
qed

section \<open>Mutation Dispatcher: what a mutation does to the cache\<close>

lemma onError_keeps_store: "run_effects (onError m) s = s"
  by (cases m) (simp_all add: run_effects_def)

lemma invalidate_data: "map_option data (entries (invalidate pat s) k) = map_option data (entries s k)"
  by (simp add: invalidate_def split: option.splits)

lemma run_effect_data: "map_option data (entries (run_effect s e) k) = map_option data (entries s k)"
  by (cases e) (simp_all add: invalidate_data)

lemma foldl_run_effect_data:
  "map_option data (entries (foldl run_effect s effs) k) = map_option data (entries s k)"
  by (induction effs arbitrary: s) (simp_all add: run_effect_data)

lemma mutate_dispatched_id: "mutate_dispatched m s = s"
  by (simp add: mutate_dispatched_def run_effects_def)

lemma invalidate_entry:
  "entries (invalidate pat s) k =
     map_option (\<lambda>e. if key_matches pat k then e\<lparr>invalidated := True\<rparr> else e) (entries s k)"
  by (simp add: invalidate_def split: option.splits)

lemma mutate_success:
  "fst (api_call srv (mutationFn m) w) = Inr d \<Longrightarrow>
   fst (mutate srv m (s, w)) = MutationSuccess d \<and>
   fst (snd (mutate srv m (s, w))) = run_effects (onSuccess m) s"
  by (auto simp: mutate_def mutate_settled_def mutate_dispatched_def run_effects_def
      split: prod.splits sum.splits)

lemma items_approve_invalidates:
  assumes "fst (api_call srv (mutationFn (Items_approveMutation i)) w) = Inr d"
    and "entries s k = Some e"
    and "key_matches [JStr ''pending-items''] k \<or> key_matches [JStr ''dashboard-stats''] k"
  shows "entries (fst (snd (mutate srv (Items_approveMutation i) (s, w)))) k
           = Some (e\<lparr>invalidated := True\<rparr>)"
  using assms(2,3) mutate_success [OF assms(1), of s]
  by (auto simp: run_effects_def invalidate_entry)

lemma opportunities_approve_invalidates:
  assumes "fst (api_call srv (mutationFn (Opportunities_approveMutation i)) w) = Inr d"
    and "entries s k = Some e"
  shows "entries (fst (snd (mutate srv (Opportunities_approveMutation i) (s, w)))) k
           = Some (if key_matches [JStr ''opportunities''] k \<or> key_matches [JStr ''pending-items''] k
                   then e\<lparr>invalidated := True\<rparr> else e)"
  using assms(2) mutate_success [OF assms(1), of s]
  by (auto simp: run_effects_def invalidate_entry)

lemma resolve_invalidated_fetches:
  "entries s k = Some e \<Longrightarrow> invalidated e \<Longrightarrow> \<not> fetching e \<Longrightarrow>
   issued (snd (resolve k fresh_for now s)) = issued s @ [(k, gen e + 1)]"
  by (simp add: resolve_def needs_fetch_def start_fetch_def)

text \<open>
  C2. When the call of a mutation fails, the store afterwards is the store before
  (no entry changed, no key invalidated) and the view gets the error.
\<close>

theorem failed_mutation_keeps_cache:
  assumes "fst (api_call srv (mutationFn m) w) = Inl e"
  shows "fst (mutate srv m (s, w)) = MutationError e \<and> fst (snd (mutate srv m (s, w))) = s"
  using assms
  by (auto simp: mutate_def mutate_settled_def mutate_dispatched_id onError_keeps_store
      split: prod.splits sum.splits)

theorem failed_mutation_keeps_cache_witness:
  "fst (api_call (answering 500) (mutationFn (Orders_completeMutation ''7'')) ((), []))
     = Inl (AxiosError (Some (500, JNull))) \<and>
   fst (mutate (answering 500) (Orders_completeMutation ''7'')
          (store_with [JStr ''orders'', JNum 1, JBool True] (JStr ''shipped_to_buyer''), ((), [])))
     = MutationError (AxiosError (Some (500, JNull))) \<and>
   fst (snd (mutate (answering 500) (Orders_completeMutation ''7'')
          (store_with [JStr ''orders'', JNum 1, JBool True] (JStr ''shipped_to_buyer''), ((), []))))
     = store_with [JStr ''orders'', JNum 1, JBool True] (JStr ''shipped_to_buyer'')"
proof -
  have h: "fst (api_call (answering 500) (mutationFn (Orders_completeMutation ''7'')) ((), []))
     = Inl (AxiosError (Some (500, JNull)))"
    by (simp add: api_call_def answering_def validateStatus_def)
  show ?thesis
    using h
      failed_mutation_keeps_cache [OF h,
        of "store_with [JStr ''orders'', JNum 1, JBool True] (JStr ''shipped_to_buyer'')"]
    by simp
qed

text \<open>
  C6. Dispatching a mutation leaves the store as it is; and whatever the outcome,
  the mutation never writes a value into an entry: the data of every key is the
  same before and after, only invalidation marks are set, after the confirmation.
\<close>

theorem no_cache_change_before_confirmation:
  "mutate_dispatched m s = s \<and>
   map_option data (entries (fst (snd (mutate srv m (s, w)))) k) = map_option data (entries s k)"
  by (auto simp: mutate_def mutate_settled_def mutate_dispatched_id run_effects_def
      foldl_run_effect_data split: prod.splits sum.splits)

text \<open>
  C1. The approve mutation of the Items page invalidates the pending-items lists
  and the dashboard figures. The one of the Opportunities page does not invalidate
  the dashboard figures: after a successful approval the entry is not marked, and
  a consumer that treats it as fresh for a minute reads it without a fetch.
\<close>

theorem opportunities_approve_skips_dashboard_stats:
  "fst (mutate (answering 200) (Opportunities_approveMutation ''42'') (stats_cached, ((), [])))
     = MutationSuccess (Some JNull) \<and>
   map_option invalidated (entries (after_approve (Opportunities_approveMutation ''42'')) stats_key)
     = Some False \<and>
   issued (snd (resolve stats_key (Some 60) 1 (after_approve (Opportunities_approveMutation ''42''))))
     = [] \<and>
   map_option invalidated (entries (after_approve (Items_approveMutation ''42'')) stats_key)
     = Some True \<and>
   issued (snd (resolve stats_key (Some 60) 1 (after_approve (Items_approveMutation ''42''))))
     = [(stats_key, 2)]"
  by (simp add: after_approve_def mutate_def mutate_settled_def mutate_dispatched_def
      run_effects_def api_call_def response_data_def answering_def validateStatus_def stats_cached_def
      store_with_def stats_key_def empty_store_def invalidate_def resolve_def needs_fetch_def
      start_fetch_def)

section \<open>Cached Query Store: generations and fetches in flight\<close>

lemma gens_of_append: "gens_of k (xs @ ys) = gens_of k xs @ gens_of k ys"
  by (simp add: gens_of_def)

lemma gens_of_single: "gens_of k [(k', g)] = (if k' = k then [g] else [])"
  by (simp add: gens_of_def)

lemma in_gens_of: "g \<in> set (gens_of k rs) \<longleftrightarrow> (k, g) \<in> set rs"
  by (force simp: gens_of_def)

lemma store_inv_empty: "store_inv empty_store"
  by (simp add: store_inv_def empty_store_def gens_of_def)

lemma start_fetch_gen_at:
  "gen_at (start_fetch k e s) k' = (if k' = k then gen e + 1 else gen_at s k')"
  by (simp add: gen_at_def start_fetch_def)

lemma start_fetch_fetching_at:
  "fetching_at (start_fetch k e s) k' = (k' = k \<or> fetching_at s k')"
  by (simp add: fetching_at_def start_fetch_def)

lemma start_fetch_inv:
  assumes inv: "store_inv s" and e: "gen_at s k = gen e" and nf: "\<not> fetching_at s k"
  shows "store_inv (start_fetch k e s)"
proof -
  have below: "\<And>g. (k, g) \<in> set (issued s) \<Longrightarrow> g \<le> gen e"
    using inv e by (fastforce simp: store_inv_def)
  have below_ap: "\<And>g. (k, g) \<in> set (applied s) \<Longrightarrow> g \<le> gen e"
    using inv e by (fastforce simp: store_inv_def)
  have fresh: "(k, gen e + 1) \<notin> set (issued s)"
    using below by fastforce
  have lists: "in_flight (start_fetch k e s) = in_flight s @ [(k, gen e + 1)]"
    "issued (start_fetch k e s) = issued s @ [(k, gen e + 1)]"
    "applied (start_fetch k e s) = applied s"
    by (simp_all add: start_fetch_def)
  have d: "distinct (in_flight (start_fetch k e s))"
    using inv fresh by (auto simp: store_inv_def lists)
  have sub: "set (in_flight (start_fetch k e s)) \<subseteq> set (issued (start_fetch k e s))"
    using inv by (auto simp: store_inv_def lists)
  have iss: "\<forall>r \<in> set (issued (start_fetch k e s)).
               1 \<le> snd r \<and> snd r \<le> gen_at (start_fetch k e s) (fst r)"
    using inv below by (auto simp: store_inv_def lists start_fetch_gen_at le_Suc_eq)
  have app: "\<forall>r \<in> set (applied (start_fetch k e s)).
               snd r \<le> gen_at (start_fetch k e s) (fst r) \<and>
               (fetching_at (start_fetch k e s) (fst r) \<longrightarrow>
                  snd r < gen_at (start_fetch k e s) (fst r))"
    using inv below_ap
    by (auto simp: store_inv_def lists start_fetch_gen_at start_fetch_fetching_at
        less_Suc_eq_le le_Suc_eq)
  have si: "\<forall>k'. sorted_wrt (<) (gens_of k' (issued (start_fetch k e s)))"
    using inv below
    by (auto simp: store_inv_def lists gens_of_append gens_of_single
        sorted_wrt_append in_gens_of less_Suc_eq_le)
  have sa: "\<forall>k'. sorted_wrt (<) (gens_of k' (applied (start_fetch k e s)))"
    using inv by (auto simp: store_inv_def lists)
  show ?thesis
    unfolding store_inv_def using d sub iss app si sa by blast
qed

lemma resolve_inv: "store_inv s \<Longrightarrow> store_inv (snd (resolve k ff now s))"
  by (auto simp: resolve_def split: option.splits
      intro!: start_fetch_inv simp: gen_at_def fetching_at_def empty_entry_def)

lemma invalidate_proj:
  "gen_at (invalidate pat s) k = gen_at s k"
  "fetching_at (invalidate pat s) k = fetching_at s k"
  "in_flight (invalidate pat s) = in_flight s"
  "issued (invalidate pat s) = issued s"
  "applied (invalidate pat s) = applied s"
  by (simp_all add: invalidate_def gen_at_def fetching_at_def split: option.splits)

lemma invalidate_inv: "store_inv s \<Longrightarrow> store_inv (invalidate pat s)"
  by (simp add: store_inv_def invalidate_proj)

lemma cancel_proj:
  "gen_at (cancel k s) k' = gen_at s k'"
  "fetching_at (cancel k s) k' = (k' \<noteq> k \<and> fetching_at s k')"
  "in_flight (cancel k s) = in_flight s"
  "issued (cancel k s) = issued s"
  "applied (cancel k s) = applied s"
  by (auto simp: cancel_def gen_at_def fetching_at_def split: option.splits)

lemma cancel_inv: "store_inv s \<Longrightarrow> store_inv (cancel k s)"
  by (simp add: store_inv_def cancel_proj)

lemma respond_proj:
  "gen_at (respond k g d now s) k' = gen_at s k'"
  "fetching_at (respond k g d now s) k' \<Longrightarrow> fetching_at s k'"
  "issued (respond k g d now s) = issued s"
  "set (in_flight (respond k g d now s)) \<subseteq> set (in_flight s)"
  "distinct (in_flight s) \<Longrightarrow> distinct (in_flight (respond k g d now s))"
  by (auto simp: respond_def gen_at_def fetching_at_def split: option.splits if_splits
      dest: set_remove1_subset[THEN subsetD])

lemma respond_applied:
  "applied (respond k g d now s) =
     (if (k, g) \<in> set (in_flight s) \<and> fetching_at s k \<and> gen_at s k = g
      then applied s @ [(k, g)] else applied s)"
  by (auto simp: respond_def gen_at_def fetching_at_def split: option.splits)

lemma respond_accept_fetching:
  "(k, g) \<in> set (in_flight s) \<Longrightarrow> fetching_at s k \<Longrightarrow> gen_at s k = g \<Longrightarrow>
   \<not> fetching_at (respond k g d now s) k"
  by (auto simp: respond_def gen_at_def fetching_at_def split: option.splits)

lemma respond_inv:
  assumes inv: "store_inv s"
  shows "store_inv (respond k g d now s)"
proof -
  let ?s = "respond k g d now s"
  have d: "distinct (in_flight ?s)" using inv by (simp add: store_inv_def respond_proj)
  have sub: "set (in_flight ?s) \<subseteq> set (issued ?s)"
    using inv respond_proj(4)[of k g d now s] by (auto simp: store_inv_def respond_proj(3))
  have iss: "\<forall>r \<in> set (issued ?s). 1 \<le> snd r \<and> snd r \<le> gen_at ?s (fst r)"
    using inv by (simp add: store_inv_def respond_proj)
  have app: "\<forall>r \<in> set (applied ?s). snd r \<le> gen_at ?s (fst r) \<and>
               (fetching_at ?s (fst r) \<longrightarrow> snd r < gen_at ?s (fst r))"
    using inv respond_proj(2)[of k g d now s] respond_accept_fetching[of k g s d now]
    by (auto simp: store_inv_def respond_proj(1) respond_applied)
  have si: "\<forall>k'. sorted_wrt (<) (gens_of k' (issued ?s))"
    using inv by (simp add: store_inv_def respond_proj)
  have sa: "\<forall>k'. sorted_wrt (<) (gens_of k' (applied ?s))"
    using inv
    by (fastforce simp: store_inv_def respond_applied gens_of_append gens_of_single
        sorted_wrt_append in_gens_of)
  show ?thesis
    unfolding store_inv_def using d sub iss app si sa by blast
qed

lemma fail_fetch_proj:
  "gen_at (fail_fetch k g s) k' = gen_at s k'"
  "fetching_at (fail_fetch k g s) k' \<Longrightarrow> fetching_at s k'"
  "issued (fail_fetch k g s) = issued s"
  "applied (fail_fetch k g s) = applied s"
  "set (in_flight (fail_fetch k g s)) \<subseteq> set (in_flight s)"
  "distinct (in_flight s) \<Longrightarrow> distinct (in_flight (fail_fetch k g s))"
  by (auto simp: fail_fetch_def gen_at_def fetching_at_def split: option.splits if_splits
      dest: set_remove1_subset[THEN subsetD])

lemma fail_fetch_inv:
  assumes inv: "store_inv s"
  shows "store_inv (fail_fetch k g s)"
proof -
  let ?s = "fail_fetch k g s"
  have sub: "set (in_flight ?s) \<subseteq> set (issued ?s)"
    using inv fail_fetch_proj(5)[of k g s] by (auto simp: store_inv_def fail_fetch_proj(3))
  have app: "\<forall>r \<in> set (applied ?s). snd r \<le> gen_at ?s (fst r) \<and>
               (fetching_at ?s (fst r) \<longrightarrow> snd r < gen_at ?s (fst r))"
    using inv fail_fetch_proj(2)[of k g s]
    by (auto simp: store_inv_def fail_fetch_proj(1,4))
  show ?thesis
    unfolding store_inv_def using inv sub app
    by (simp add: store_inv_def fail_fetch_proj(1,3,4,6))
qed

lemma store_step_inv: "store_inv s \<Longrightarrow> store_inv (store_step s ev)"
  by (cases ev) (simp_all add: resolve_inv invalidate_inv cancel_inv respond_inv fail_fetch_inv)

lemma foldl_store_step_inv: "store_inv s \<Longrightarrow> store_inv (foldl store_step s evs)"
  by (induction evs arbitrary: s) (simp_all add: store_step_inv)

lemma store_run_inv: "store_inv (store_run evs)"
  by (simp add: store_run_def foldl_store_step_inv store_inv_empty)


















lemma respond_stale_tag:
  assumes "g < gen_at s k"
  shows "entries (respond k g d now s) = entries s \<and> applied (respond k g d now s) = applied s"
  using assms by (auto simp: respond_def gen_at_def split: option.splits)

text \<open>
  C3. In every history of the store, the tags of a key grow in the order the
  requests were issued, and the responses written into its entry have growing
  tags; and once request \<open>g'\<close> was issued after request \<open>g\<close> for the same key,
  the response of \<open>g\<close> is dropped whenever it arrives: it changes no entry.
\<close>

theorem superseded_response_discarded:
  "sorted_wrt (<) (gens_of k (issued (store_run evs))) \<and>
   sorted_wrt (<) (gens_of k (applied (store_run evs))) \<and>
   ((k, g) \<in> set (issued (store_run evs)) \<and> (k, g') \<in> set (issued (store_run evs)) \<and> g < g' \<longrightarrow>
      entries (respond k g d now (store_run evs)) = entries (store_run evs) \<and>
      applied (respond k g d now (store_run evs)) = applied (store_run evs))"
proof -
  have inv: "store_inv (store_run evs)" by (rule store_run_inv)
  have si: "sorted_wrt (<) (gens_of k (issued (store_run evs)))"
    using inv by (simp add: store_inv_def)
  have sa: "sorted_wrt (<) (gens_of k (applied (store_run evs)))"
    using inv by (simp add: store_inv_def)
  have late: "entries (respond k g d now (store_run evs)) = entries (store_run evs) \<and>
              applied (respond k g d now (store_run evs)) = applied (store_run evs)"
    if a: "(k, g) \<in> set (issued (store_run evs)) \<and>
           (k, g') \<in> set (issued (store_run evs)) \<and> g < g'"
  proof -
    have "g' \<le> gen_at (store_run evs) k"
      using inv a by (fastforce simp: store_inv_def)
    then have "g < gen_at (store_run evs) k" using a by simp
    then show ?thesis by (rule respond_stale_tag)
  qed
  show ?thesis using si sa late by blast
qed

theorem superseded_response_discarded_witness:
  "(status_key, 1) \<in> set (issued (store_run superseding_run)) \<and>
   (status_key, 2) \<in> set (issued (store_run superseding_run)) \<and>
   (1::nat) < 2 \<and>
   (status_key, 1) \<in> set (in_flight (store_run superseding_run)) \<and>
   map_option data (entries (respond status_key 1 (JStr ''old'') 3 (store_run superseding_run)) status_key)
     = Some (Some (JStr ''new'')) \<and>
   applied (respond status_key 1 (JStr ''old'') 3 (store_run superseding_run)) = [(status_key, 2)]"
proof -
  have run: "issued (store_run superseding_run) = [(status_key, 1), (status_key, 2)]"
    "in_flight (store_run superseding_run) = [(status_key, 1)]"
    "applied (store_run superseding_run) = [(status_key, 2)]"
    "map_option data (entries (store_run superseding_run) status_key) = Some (Some (JStr ''new''))"
    by (simp_all add: store_run_def superseding_run_def empty_store_def resolve_def cancel_def
        respond_def start_fetch_def empty_entry_def needs_fetch_def)
  have h1: "(status_key, 1) \<in> set (issued (store_run superseding_run))" by (simp add: run)
  have h2: "(status_key, 2) \<in> set (issued (store_run superseding_run))" by (simp add: run)
  have h3: "(1::nat) < 2" by simp
  show ?thesis
    using h1 h2 h3 run
      superseded_response_discarded [of status_key superseding_run 1 2 "JStr ''old''" 3]
    by simp
qed




end
